theory Spec2Isabelle
  imports Main
begin

section \<open>framequery: the aggregate splitter and the plan compiler of \<open>_dag_compile.py\<close>\<close>

text \<open>
  The development embeds \<^verbatim>\<open>src/framequery/_dag_compile.py\<close>: the class
  \<^verbatim>\<open>SplitAggregateTransformer\<close>, the functions \<^verbatim>\<open>split_aggregate\<close>,
  \<^verbatim>\<open>split_aggregates\<close> and \<^verbatim>\<open>default_generator\<close>, and the class
  \<^verbatim>\<open>DagCompiler\<close>. Exceptions are values of the type \<open>error\<close>, the id generator is
  the number of ids drawn so far, and every loop is a recursive function.
\<close>

subsection \<open>Expressions\<close>

text \<open>
  Modelled from the spec: the node classes of the module \<^verbatim>\<open>_parser\<close>, which
  \<^verbatim>\<open>_dag_compile.py\<close> imports and which is not among the sources. The variants and their
  fields are the ones of the data model (section 3 of the specification); the parser tests
  (\<^verbatim>\<open>test_parser.py\<close>) build \<^verbatim>\<open>GeneralSetFunction('COUNT', Asterisk())\<close>,
  \<^verbatim>\<open>DerivedColumn(value=..., alias=None)\<close> and \<^verbatim>\<open>ColumnReference(['baz', 'd'])\<close>
  in this shape. Operators and function names are kept as their text.
\<close>

datatype expr =
    ColumnReference "string list"
  | Integer string
  | Float string
  | String string
  | Bool bool
  | Null
  | BinaryExpression string expr expr
  | UnaryExpression string expr
  | FunctionCall string "expr list"
  | GeneralSetFunction string expr
  | Asterisk
  | CaseExpression "(expr \<times> expr) list" "expr option"
  | Cast expr string
  | DerivedColumn expr "string option"

subsection \<open>Errors\<close>

text \<open>
  Every \<^verbatim>\<open>raise\<close> and \<^verbatim>\<open>assert\<close> of the source is one constructor:
  \<^item> \<open>NestedAggregateError\<close>: \<^verbatim>\<open>ValueError("multiple aggregation levels not allowed")\<close>;
  \<^item> \<open>EmptyFromClause\<close>: \<^verbatim>\<open>ValueError("cannot handle empty from clauses")\<close>;
  \<^item> \<open>UnknownSetQuantifier\<close>: \<^verbatim>\<open>ValueError('unknown set quantifier ...')\<close>;
  \<^item> \<open>AsteriskWithGroupBy\<close>: the failed \<^verbatim>\<open>assert node.group_by_clause is None\<close>;
  \<^item> \<open>NoHandler\<close>: \<^verbatim>\<open>call_handler\<close> found no method for the class of the node.
\<close>

datatype error =
    NestedAggregateError
  | EmptyFromClause
  | UnknownSetQuantifier
  | AsteriskWithGroupBy
  | NoHandler

subsection \<open>The id generator\<close>

text \<open>
  \<^verbatim>\<open>default_generator\<close> yields \<^verbatim>\<open>str(i)\<close> for \<open>i = 0, 1, 2, ...\<close>. Its state is the
  next \<open>i\<close>; \<open>str_nat\<close> is Python's \<^verbatim>\<open>str\<close> on a non-negative integer.
\<close>

definition digit_char :: "nat \<Rightarrow> char" where
  "digit_char d = ''0123456789'' ! d"

fun str_nat :: "nat \<Rightarrow> string" where
  "str_nat n = (if n < 10 then [digit_char n] else str_nat (n div 10) @ [digit_char (n mod 10)])"

declare str_nat.simps [simp del]

definition default_generator_next :: "nat \<Rightarrow> string \<times> nat" where
  "default_generator_next i = (str_nat i, Suc i)"

text \<open>\<^verbatim>\<open>_tmp_column\<close>: \<^verbatim>\<open>'${}'.format(next(self.id_generator))\<close>.\<close>

definition tmp_column :: "nat \<Rightarrow> string \<times> nat" where
  "tmp_column i = (case default_generator_next i of (s, i') \<Rightarrow> (CHR ''$'' # s, i'))"

text \<open>\<^verbatim>\<open>_ref\<close>.\<close>

definition ref :: "string \<Rightarrow> expr" where
  "ref col_name = ColumnReference [col_name]"

subsection \<open>The aggregate splitter\<close>

type_synonym split_result = "expr \<times> expr list \<times> expr list"

text \<open>
  Modelled from the spec: \<^verbatim>\<open>call_handler\<close> of the module \<^verbatim>\<open>_util.introspect\<close>,
  which is not among the sources. It is the runtime-dispatched handler lookup keyed by
  node class name (section 9 of the specification):
  \<^verbatim>\<open>SplitAggregateTransformer.split\<close> is \<^verbatim>\<open>call_handler(self, "split", node)\<close> and
  calls the method \<^verbatim>\<open>split_<class name in snake case>\<close> of the transformer.

  The methods are those of the source, one equation each and in its order:
  \<^verbatim>\<open>split_derived_column\<close>, \<^verbatim>\<open>split_column_reference\<close>,
  \<^verbatim>\<open>split_general_set_function\<close>, \<^verbatim>\<open>split_binary_expression\<close>,
  \<^verbatim>\<open>split_unary_expression\<close>, \<^verbatim>\<open>split_function_call\<close>, \<^verbatim>\<open>split_integer\<close>
  and \<^verbatim>\<open>split_float\<close>. The class defines no method for any other node class, so
  there the lookup has nothing to call and fails (\<open>NoHandler\<close>).

  \<open>split_function_call_loop\<close> is the \<^verbatim>\<open>for arg in node.arguments\<close> loop of
  \<^verbatim>\<open>split_function_call\<close>; it returns the three accumulated lists.
\<close>

fun split :: "expr \<Rightarrow> nat \<Rightarrow> error + split_result \<times> nat"
  and split_function_call_loop ::
    "expr list \<Rightarrow> nat \<Rightarrow> error + (expr list \<times> expr list \<times> expr list) \<times> nat"
where
  "split (DerivedColumn v alias) i =
     (case split v i of
        Inl e \<Rightarrow> Inl e
      | Inr ((value', agg, pre_aggs), i') \<Rightarrow> Inr ((DerivedColumn value' alias, agg, pre_aggs), i'))"
| "split (ColumnReference parts) i = Inr ((ColumnReference parts, [], []), i)"
| "split (GeneralSetFunction name v) i =
     (case split v i of
        Inl e \<Rightarrow> Inl e
      | Inr ((value_node, aggs, pre_aggs), i1) \<Rightarrow>
          if aggs \<noteq> [] \<or> pre_aggs \<noteq> [] then Inl NestedAggregateError
          else
            (case tmp_column i1 of (pre_agg_col, i2) \<Rightarrow>
             case tmp_column i2 of (agg_col, i3) \<Rightarrow>
               Inr ((ref agg_col,
                     [DerivedColumn (GeneralSetFunction name (ref pre_agg_col)) (Some agg_col)],
                     [DerivedColumn value_node (Some pre_agg_col)]), i3)))"
| "split (BinaryExpression op l r) i =
     (case split l i of
        Inl e \<Rightarrow> Inl e
      | Inr ((left_node, left_aggs, left_pre_aggs), i1) \<Rightarrow>
          (case split r i1 of
             Inl e \<Rightarrow> Inl e
           | Inr ((right_node, right_aggs, right_pre_aggs), i2) \<Rightarrow>
               Inr ((BinaryExpression op left_node right_node,
                     left_aggs @ right_aggs,
                     left_pre_aggs @ right_pre_aggs), i2)))"
| "split (UnaryExpression op operand) i =
     (case split operand i of
        Inl e \<Rightarrow> Inl e
      | Inr ((inner_node, aggs, pre_aggs), i') \<Rightarrow>
          Inr ((UnaryExpression op inner_node, aggs, pre_aggs), i'))"
| "split (FunctionCall name arguments) i =
     (case split_function_call_loop arguments i of
        Inl e \<Rightarrow> Inl e
      | Inr ((args, aggs, pre_aggs), i') \<Rightarrow> Inr ((FunctionCall name args, aggs, pre_aggs), i'))"
| "split (Integer v) i = Inr ((Integer v, [], []), i)"
| "split (Float v) i = Inr ((Float v, [], []), i)"
| "split (String v) i = Inl NoHandler"
| "split (Bool v) i = Inl NoHandler"
| "split Null i = Inl NoHandler"
| "split Asterisk i = Inl NoHandler"
| "split (CaseExpression cases else_case) i = Inl NoHandler"
| "split (Cast v type_name) i = Inl NoHandler"
| "split_function_call_loop [] i = Inr (([], [], []), i)"
| "split_function_call_loop (arg # rest) i =
     (case split arg i of
        Inl e \<Rightarrow> Inl e
      | Inr ((t0, t1, t2), i1) \<Rightarrow>
          (case split_function_call_loop rest i1 of
             Inl e \<Rightarrow> Inl e
           | Inr ((args, aggs, pre_aggs), i2) \<Rightarrow> Inr ((t0 # args, t1 @ aggs, t2 @ pre_aggs), i2)))"

text \<open>
  \<^verbatim>\<open>split_aggregate(expr, id_generator)\<close>; a call without a generator is the call at
  \<open>i = 0\<close>, the fresh \<^verbatim>\<open>default_generator()\<close>.
\<close>

definition split_aggregate :: "expr \<Rightarrow> nat \<Rightarrow> error + split_result \<times> nat" where
  "split_aggregate e i = split e i"

text \<open>\<^verbatim>\<open>split_aggregates\<close>: the loop over the select list, sharing one generator.\<close>

fun split_aggregates ::
  "expr list \<Rightarrow> nat \<Rightarrow> error + (expr list \<times> expr list \<times> expr list) \<times> nat" where
  "split_aggregates [] i = Inr (([], [], []), i)"
| "split_aggregates (col # rest) i =
     (case split_aggregate col i of
        Inl e \<Rightarrow> Inl e
      | Inr ((c, a, p), i1) \<Rightarrow>
          (case split_aggregates rest i1 of
             Inl e \<Rightarrow> Inl e
           | Inr ((cols, aggs, pre_aggs), i2) \<Rightarrow> Inr ((c # cols, a @ aggs, p @ pre_aggs), i2)))"

subsection \<open>Statements and plans\<close>

text \<open>
  Modelled from the spec: the statement classes of \<^verbatim>\<open>_parser\<close> (\<^verbatim>\<open>Select\<close>,
  \<^verbatim>\<open>TableName\<close>, \<^verbatim>\<open>JoinedTable\<close>, \<^verbatim>\<open>Join\<close>, \<^verbatim>\<open>CrossJoin\<close>) with the slots
  that \<^verbatim>\<open>_dag_compile.py\<close> reads. The select list is the sentinel or a sequence of
  columns; the two join classes of \<^verbatim>\<open>_parser\<close> are \<open>Parser_Join\<close> and
  \<open>Parser_CrossJoin\<close>, since the plan has nodes of the same names. A table of a from
  clause is a \<^verbatim>\<open>TableName\<close>, a nested \<^verbatim>\<open>Select\<close> (\<open>SubSelect\<close>) or a
  \<^verbatim>\<open>JoinedTable\<close>.
\<close>

record limit_clause =
  offset :: nat
  limit :: nat

datatype select_list = SelectAsterisk | SelectColumns "expr list"

datatype table =
    TableName string "string option"
  | SubSelect select
  | JoinedTable table "join list"
and join =
    Parser_Join string table expr
  | Parser_CrossJoin table
and select =
    Select (select_list: select_list)
           (from_clause: "table list")
           (where_clause: "expr option")
           (group_by_clause: "expr list option")
           (having_clause: "expr option")
           (order_by_clause: "(expr \<times> string) list option")
           (limit_clause: "limit_clause option")
           (set_quantifier: string)

text \<open>
  Modelled from the spec: the plan nodes of the module \<^verbatim>\<open>_dag\<close> (not among the
  sources), with the fields that \<^verbatim>\<open>_dag_compile.py\<close> passes to each constructor.
\<close>

datatype plan =
    GetTable string "string option"
  | Filter plan expr
  | Transform plan "expr list"
  | Aggregate plan "expr list" "expr list option"
  | Sort plan "(expr \<times> string) list"
  | Limit plan nat nat
  | DropDuplicates plan
  | CrossJoin plan plan
  | Join plan plan string expr

subsection \<open>Strings\<close>

text \<open>
  \<^verbatim>\<open>str.upper\<close> and \<^verbatim>\<open>str.lower\<close> on ASCII text: each of the letters
  \<open>a..z\<close> and \<open>A..Z\<close> is replaced by its counterpart, every other character is kept.
\<close>

definition lowercase_letters :: string where
  "lowercase_letters = ''abcdefghijklmnopqrstuvwxyz''"

definition uppercase_letters :: string where
  "uppercase_letters = ''ABCDEFGHIJKLMNOPQRSTUVWXYZ''"

definition upper_char :: "char \<Rightarrow> char" where
  "upper_char c =
     (case map_of (zip lowercase_letters uppercase_letters) c of Some u \<Rightarrow> u | None \<Rightarrow> c)"

definition lower_char :: "char \<Rightarrow> char" where
  "lower_char c =
     (case map_of (zip uppercase_letters lowercase_letters) c of Some l \<Rightarrow> l | None \<Rightarrow> c)"

definition upper :: "string \<Rightarrow> string" where
  "upper s = map upper_char s"

definition lower :: "string \<Rightarrow> string" where
  "lower s = map lower_char s"

subsection \<open>The compiler: the steps around the from clause\<close>

text \<open>
  \<^verbatim>\<open>_filter_pre_transform\<close>, \<^verbatim>\<open>_filter_post_transform\<close>, \<^verbatim>\<open>_order\<close>,
  \<^verbatim>\<open>_limit\<close> (here \<open>limit_step\<close>, since \<open>limit\<close> is the field of the limit
  clause) and \<^verbatim>\<open>_drop_duplicates\<close>.
\<close>

definition filter_pre_transform :: "select \<Rightarrow> plan \<Rightarrow> plan" where
  "filter_pre_transform node t =
     (case where_clause node of None \<Rightarrow> t | Some w \<Rightarrow> Filter t w)"

definition filter_post_transform :: "select \<Rightarrow> plan \<Rightarrow> plan" where
  "filter_post_transform node t =
     (case having_clause node of None \<Rightarrow> t | Some h \<Rightarrow> Filter t h)"

definition order :: "select \<Rightarrow> plan \<Rightarrow> plan" where
  "order node t =
     (case order_by_clause node of None \<Rightarrow> t | Some keys \<Rightarrow> Sort t keys)"

definition limit_step :: "select \<Rightarrow> plan \<Rightarrow> plan" where
  "limit_step node t =
     (case limit_clause node of None \<Rightarrow> t | Some l \<Rightarrow> Limit t (offset l) (limit l))"

definition drop_duplicates :: "select \<Rightarrow> plan \<Rightarrow> error + plan" where
  "drop_duplicates node t =
     (let q = upper (set_quantifier node)
      in if q = ''ALL'' then Inr t
         else if q = ''DISTINCT'' then Inr (DropDuplicates t)
         else Inl UnknownSetQuantifier)"

text \<open>
  Modelled from the spec: \<^verbatim>\<open>get_selected_column_name\<close> of \<^verbatim>\<open>_parser\<close> (not among
  the sources): the name of a group expression is its own name if it is a bare column
  reference (the last part of a dotted path) or an aliased derived column; any other
  expression has none.
\<close>

fun get_selected_column_name :: "expr \<Rightarrow> string option" where
  "get_selected_column_name (ColumnReference parts) =
     (if parts = [] then None else Some (last parts))"
| "get_selected_column_name (DerivedColumn v (Some alias)) = Some alias"
| "get_selected_column_name _ = None"

text \<open>\<^verbatim>\<open>_group_by_col_alias\<close> and the loop of \<^verbatim>\<open>_normalize_group_by\<close>.\<close>

definition group_by_col_alias :: "expr \<Rightarrow> nat \<Rightarrow> string \<times> nat" where
  "group_by_col_alias col i =
     (case get_selected_column_name col of Some col_id \<Rightarrow> (col_id, i) | None \<Rightarrow> tmp_column i)"

fun normalize_group_by_loop :: "expr list \<Rightarrow> nat \<Rightarrow> (expr list \<times> expr list) \<times> nat" where
  "normalize_group_by_loop [] i = (([], []), i)"
| "normalize_group_by_loop (col # rest) i =
     (case group_by_col_alias col i of (col_id, i1) \<Rightarrow>
      case normalize_group_by_loop rest i1 of ((result_group_by, result_pre_aggs), i2) \<Rightarrow>
        ((ColumnReference [col_id] # result_group_by,
          DerivedColumn col (Some col_id) # result_pre_aggs), i2))"

definition normalize_group_by ::
  "expr list option \<Rightarrow> nat \<Rightarrow> (expr list option \<times> expr list) \<times> nat" where
  "normalize_group_by group_by i =
     (case group_by of
        None \<Rightarrow> ((None, []), i)
      | Some cols \<Rightarrow>
          (case normalize_group_by_loop cols i of
             ((result_group_by, result_pre_aggs), i') \<Rightarrow>
               ((Some result_group_by, result_pre_aggs), i')))"

text \<open>\<^verbatim>\<open>_transform_table\<close>.\<close>

definition transform_table :: "select \<Rightarrow> plan \<Rightarrow> nat \<Rightarrow> error + plan \<times> nat" where
  "transform_table node t i =
     (case select_list node of
        SelectAsterisk \<Rightarrow>
          (if group_by_clause node \<noteq> None then Inl AsteriskWithGroupBy
           else Inr (order node t, i))
      | SelectColumns cols \<Rightarrow>
          (case split_aggregates cols i of
             Inl e \<Rightarrow> Inl e
           | Inr ((columns, aggregates, pre_aggregates), i1) \<Rightarrow>
               (case normalize_group_by (group_by_clause node) i1 of
                  ((group_by, group_by_cols), i2) \<Rightarrow>
                    (let pre_aggregates' = pre_aggregates @ group_by_cols;
                         t1 = (if pre_aggregates' \<noteq> [] then Transform t pre_aggregates' else t);
                         t2 = (if aggregates \<noteq> [] then Aggregate t1 aggregates group_by else t1)
                     in Inr (Transform (order node t2) columns, i2)))))"

text \<open>The steps of \<^verbatim>\<open>compile_select\<close> after \<^verbatim>\<open>compile_from_clause\<close>.\<close>

definition compile_select_steps :: "select \<Rightarrow> plan \<Rightarrow> nat \<Rightarrow> error + plan \<times> nat" where
  "compile_select_steps node t i =
     (case transform_table node (filter_pre_transform node t) i of
        Inl e \<Rightarrow> Inl e
      | Inr (t1, i1) \<Rightarrow>
          (case drop_duplicates node (filter_post_transform node t1) of
             Inl e \<Rightarrow> Inl e
           | Inr t2 \<Rightarrow> Inr (limit_step node t2, i1)))"

subsection \<open>The compiler: from clauses, tables and nested selects\<close>

text \<open>
  \<^verbatim>\<open>compile_select\<close>, \<^verbatim>\<open>compile_from_clause\<close> and \<^verbatim>\<open>_compile_single_table\<close>
  call one another; \<open>compile_from_clause_loop\<close> is the \<^verbatim>\<open>for next in tail\<close> loop and
  \<open>compile_joins\<close> the \<^verbatim>\<open>for join in table.joins\<close> loop, each with the plan built so
  far. \<^verbatim>\<open>self.compile(table)\<close> on a nested \<^verbatim>\<open>Select\<close> dispatches to
  \<^verbatim>\<open>compile_select\<close> with the same id generator. A join is one of the two join classes,
  so the branch \<^verbatim>\<open>raise ValueError("unknown join ...")\<close> and the failing
  \<^verbatim>\<open>assert isinstance(table, _parser.JoinedTable)\<close> have no input here.
\<close>

function compile_select :: "select \<Rightarrow> nat \<Rightarrow> error + plan \<times> nat"
  and compile_from_clause :: "table list \<Rightarrow> nat \<Rightarrow> error + plan \<times> nat"
  and compile_from_clause_loop :: "table list \<Rightarrow> plan \<Rightarrow> nat \<Rightarrow> error + plan \<times> nat"
  and compile_single_table :: "table \<Rightarrow> nat \<Rightarrow> error + plan \<times> nat"
  and compile_joins :: "join list \<Rightarrow> plan \<Rightarrow> nat \<Rightarrow> error + plan \<times> nat"
where
  "compile_select node i =
     (case compile_from_clause (from_clause node) i of
        Inl e \<Rightarrow> Inl e
      | Inr (t, i1) \<Rightarrow> compile_select_steps node t i1)"
| "compile_from_clause [] i = Inl EmptyFromClause"
| "compile_from_clause (head # tail) i =
     (case compile_single_table head i of
        Inl e \<Rightarrow> Inl e
      | Inr (result, i1) \<Rightarrow> compile_from_clause_loop tail result i1)"
| "compile_from_clause_loop [] result i = Inr (result, i)"
| "compile_from_clause_loop (nxt # rest) result i =
     (case compile_single_table nxt i of
        Inl e \<Rightarrow> Inl e
      | Inr (nxt', i1) \<Rightarrow> compile_from_clause_loop rest (CrossJoin result nxt') i1)"
| "compile_single_table (TableName t alias) i = Inr (GetTable t alias, i)"
| "compile_single_table (SubSelect s) i = compile_select s i"
| "compile_single_table (JoinedTable t joins) i =
     (case compile_from_clause [t] i of
        Inl e \<Rightarrow> Inl e
      | Inr (result, i1) \<Rightarrow> compile_joins joins result i1)"
| "compile_joins [] result i = Inr (result, i)"
| "compile_joins (Parser_Join how t on # rest) result i =
     (case compile_from_clause [t] i of
        Inl e \<Rightarrow> Inl e
      | Inr (right, i1) \<Rightarrow> compile_joins rest (Join result right (lower how) on) i1)"
| "compile_joins (Parser_CrossJoin t # rest) result i =
     (case compile_from_clause [t] i of
        Inl e \<Rightarrow> Inl e
      | Inr (right, i1) \<Rightarrow> compile_joins rest (CrossJoin result right) i1)"
  by pat_completeness auto

text \<open>
  Termination: every call goes to a part of its argument, except that
  \<^verbatim>\<open>_compile_single_table\<close> wraps the left table of a \<^verbatim>\<open>JoinedTable\<close> in a
  one-element list before it calls \<^verbatim>\<open>compile_from_clause\<close>; the measure counts a table
  (and a select) one higher than a list of the same size.
\<close>

termination
  apply (relation "measure (\<lambda>x. case x of
      Inl (Inl (node, i)) \<Rightarrow> 2 * size node + 1
    | Inl (Inr (ts, i)) \<Rightarrow> 2 * size_list size ts
    | Inr (Inl (ts, p, i)) \<Rightarrow> 2 * size_list size ts
    | Inr (Inr (Inl (t, i))) \<Rightarrow> 2 * size t + 1
    | Inr (Inr (Inr (js, p, i))) \<Rightarrow> 2 * size_list size js)")
             apply simp_all
  subgoal for node by (cases node) simp
  done

text \<open>\<^verbatim>\<open>compile_dag\<close>: \<^verbatim>\<open>DagCompiler(id_generator).compile(node)\<close> on a \<^verbatim>\<open>Select\<close>;
  without a generator the call is at \<open>i = 0\<close>.\<close>

definition compile_dag :: "select \<Rightarrow> nat \<Rightarrow> error + plan \<times> nat" where
  "compile_dag node i = compile_select node i"

subsection \<open>Measures on expressions, statements and plans\<close>

text \<open>The number of \<^verbatim>\<open>GeneralSetFunction\<close> nodes of an expression, over every child.\<close>

function (sequential) count_gsf :: "expr \<Rightarrow> nat"
  and count_gsf_list :: "expr list \<Rightarrow> nat"
  and count_gsf_cases :: "(expr \<times> expr) list \<Rightarrow> nat"
where
  "count_gsf (GeneralSetFunction name v) = Suc (count_gsf v)"
| "count_gsf (BinaryExpression op l r) = count_gsf l + count_gsf r"
| "count_gsf (UnaryExpression op operand) = count_gsf operand"
| "count_gsf (FunctionCall name arguments) = count_gsf_list arguments"
| "count_gsf (CaseExpression cases else_case) =
     count_gsf_cases cases + (case else_case of None \<Rightarrow> 0 | Some e \<Rightarrow> count_gsf e)"
| "count_gsf (Cast v type_name) = count_gsf v"
| "count_gsf (DerivedColumn v alias) = count_gsf v"
| "count_gsf (ColumnReference parts) = 0"
| "count_gsf (Integer v) = 0"
| "count_gsf (Float v) = 0"
| "count_gsf (String v) = 0"
| "count_gsf (Bool v) = 0"
| "count_gsf Null = 0"
| "count_gsf Asterisk = 0"
| "count_gsf_list [] = 0"
| "count_gsf_list (e # es) = count_gsf e + count_gsf_list es"
| "count_gsf_cases [] = 0"
| "count_gsf_cases ((c, r) # cs) = count_gsf c + count_gsf r + count_gsf_cases cs"
  by pat_completeness auto

termination
  by (relation "measure (\<lambda>x. case x of
      Inl e \<Rightarrow> size e
    | Inr (Inl es) \<Rightarrow> size_list size es
    | Inr (Inr cs) \<Rightarrow> size_list (size_prod size size) cs)") simp_all

text \<open>
  A \<^verbatim>\<open>GeneralSetFunction\<close> occurs inside the argument of another one, somewhere in
  the expression.
\<close>

function (sequential) nested_aggregate :: "expr \<Rightarrow> bool"
  and nested_aggregate_list :: "expr list \<Rightarrow> bool"
  and nested_aggregate_cases :: "(expr \<times> expr) list \<Rightarrow> bool"
where
  "nested_aggregate (GeneralSetFunction name v) = (0 < count_gsf v)"
| "nested_aggregate (BinaryExpression op l r) = (nested_aggregate l \<or> nested_aggregate r)"
| "nested_aggregate (UnaryExpression op operand) = nested_aggregate operand"
| "nested_aggregate (FunctionCall name arguments) = nested_aggregate_list arguments"
| "nested_aggregate (CaseExpression cases else_case) =
     (nested_aggregate_cases cases \<or>
      (case else_case of None \<Rightarrow> False | Some e \<Rightarrow> nested_aggregate e))"
| "nested_aggregate (Cast v type_name) = nested_aggregate v"
| "nested_aggregate (DerivedColumn v alias) = nested_aggregate v"
| "nested_aggregate (ColumnReference parts) = False"
| "nested_aggregate (Integer v) = False"
| "nested_aggregate (Float v) = False"
| "nested_aggregate (String v) = False"
| "nested_aggregate (Bool v) = False"
| "nested_aggregate Null = False"
| "nested_aggregate Asterisk = False"
| "nested_aggregate_list [] = False"
| "nested_aggregate_list (e # es) = (nested_aggregate e \<or> nested_aggregate_list es)"
| "nested_aggregate_cases [] = False"
| "nested_aggregate_cases ((c, r) # cs) =
     (nested_aggregate c \<or> nested_aggregate r \<or> nested_aggregate_cases cs)"
  by pat_completeness auto

termination
  by (relation "measure (\<lambda>x. case x of
      Inl e \<Rightarrow> size e
    | Inr (Inl es) \<Rightarrow> size_list size es
    | Inr (Inr cs) \<Rightarrow> size_list (size_prod size size) cs)") simp_all

text \<open>
  Every node that the splitter reaches in the expression is of a class for which
  \<^verbatim>\<open>SplitAggregateTransformer\<close> defines a \<^verbatim>\<open>split_...\<close> method.
\<close>

fun has_handler :: "expr \<Rightarrow> bool"
  and has_handler_list :: "expr list \<Rightarrow> bool"
where
  "has_handler (DerivedColumn v alias) = has_handler v"
| "has_handler (ColumnReference parts) = True"
| "has_handler (GeneralSetFunction name v) = has_handler v"
| "has_handler (BinaryExpression op l r) = (has_handler l \<and> has_handler r)"
| "has_handler (UnaryExpression op operand) = has_handler operand"
| "has_handler (FunctionCall name arguments) = has_handler_list arguments"
| "has_handler (Integer v) = True"
| "has_handler (Float v) = True"
| "has_handler (String v) = False"
| "has_handler (Bool v) = False"
| "has_handler Null = False"
| "has_handler Asterisk = False"
| "has_handler (CaseExpression cases else_case) = False"
| "has_handler (Cast v type_name) = False"
| "has_handler_list [] = True"
| "has_handler_list (e # es) = (has_handler e \<and> has_handler_list es)"

text \<open>
  The join kinds of a plan, and the join kinds of a statement in the order in which the
  compiler meets them: a join's table before its own kind, the tables of a from clause
  from left to right.
\<close>

fun plan_hows :: "plan \<Rightarrow> string list" where
  "plan_hows (GetTable t alias) = []"
| "plan_hows (Filter p w) = plan_hows p"
| "plan_hows (Transform p cols) = plan_hows p"
| "plan_hows (Aggregate p aggs group_by) = plan_hows p"
| "plan_hows (Sort p keys) = plan_hows p"
| "plan_hows (Limit p off cnt) = plan_hows p"
| "plan_hows (DropDuplicates p) = plan_hows p"
| "plan_hows (CrossJoin l r) = plan_hows l @ plan_hows r"
| "plan_hows (Join l r how on) = plan_hows l @ plan_hows r @ [how]"

fun select_hows :: "select \<Rightarrow> string list"
  and tables_hows :: "table list \<Rightarrow> string list"
  and table_hows :: "table \<Rightarrow> string list"
  and joins_hows :: "join list \<Rightarrow> string list"
where
  "select_hows (Select sl from_cl w g h ord lim q) = tables_hows from_cl"
| "tables_hows [] = []"
| "tables_hows (t # ts) = table_hows t @ tables_hows ts"
| "table_hows (TableName t alias) = []"
| "table_hows (SubSelect s) = select_hows s"
| "table_hows (JoinedTable t joins) = table_hows t @ joins_hows joins"
| "joins_hows [] = []"
| "joins_hows (Parser_Join how t on # rest) = table_hows t @ [how] @ joins_hows rest"
| "joins_hows (Parser_CrossJoin t # rest) = table_hows t @ joins_hows rest"

section \<open>Properties\<close>

subsection \<open>Evaluating ids and case conversion\<close>

lemma str_nat_digit: "n < 10 \<Longrightarrow> str_nat n = [digit_char n]"
  by (simp add: str_nat.simps)

lemma tmp_column_small:
  "tmp_column 0 = (''$0'', Suc 0)"
  "tmp_column (Suc 0) = (''$1'', Suc (Suc 0))"
  "tmp_column (Suc (Suc 0)) = (''$2'', Suc (Suc (Suc 0)))"
  "tmp_column (Suc (Suc (Suc 0))) = (''$3'', Suc (Suc (Suc (Suc 0))))"
  "tmp_column (Suc (Suc (Suc (Suc 0)))) = (''$4'', Suc (Suc (Suc (Suc (Suc 0)))))"
  by (simp_all add: tmp_column_def default_generator_next_def str_nat_digit digit_char_def)

lemmas case_conversion_defs =
  upper_def upper_char_def lower_def lower_char_def lowercase_letters_def uppercase_letters_def

lemma lower_char_not_upper: "lower_char c \<notin> set uppercase_letters"
proof (cases "c \<in> set uppercase_letters")
  case True
  then show ?thesis
    unfolding lower_char_def uppercase_letters_def lowercase_letters_def
    by (elim set_ConsD [elim_format] disjE) simp_all
next
  case False
  have "length uppercase_letters = length lowercase_letters"
    by (simp add: uppercase_letters_def lowercase_letters_def)
  with False have "map_of (zip uppercase_letters lowercase_letters) c = None"
    by (simp add: map_of_zip_is_None)
  with False show ?thesis by (simp add: lower_char_def)
qed

subsection \<open>What a successful split looks like, handler by handler\<close>

lemma count_gsf_ref: "count_gsf (ref c) = 0"
  by (simp add: ref_def)

lemma split_DerivedColumn_Inr:
  assumes "split (DerivedColumn v al) i = Inr ((e', A, P), i')"
  obtains v' where "split v i = Inr ((v', A, P), i')" "e' = DerivedColumn v' al"
  using assms by (auto split: sum.splits prod.splits)

lemma split_UnaryExpression_Inr:
  assumes "split (UnaryExpression op v) i = Inr ((e', A, P), i')"
  obtains v' where "split v i = Inr ((v', A, P), i')" "e' = UnaryExpression op v'"
  using assms by (auto split: sum.splits prod.splits)

lemma split_FunctionCall_Inr:
  assumes "split (FunctionCall name es) i = Inr ((e', A, P), i')"
  obtains es' where "split_function_call_loop es i = Inr ((es', A, P), i')"
    "e' = FunctionCall name es'"
  using assms by (auto split: sum.splits prod.splits)

lemma split_BinaryExpression_Inr:
  assumes "split (BinaryExpression op l r) i = Inr ((e', A, P), i')"
  obtains l' Al Pl i1 r' Ar Pr where
    "split l i = Inr ((l', Al, Pl), i1)" "split r i1 = Inr ((r', Ar, Pr), i')"
    "e' = BinaryExpression op l' r'" "A = Al @ Ar" "P = Pl @ Pr"
  using assms by (auto split: sum.splits prod.splits)

lemma split_GeneralSetFunction_Inr:
  assumes "split (GeneralSetFunction name v) i = Inr ((e', A, P), i')"
  obtains v' i1 where
    "split v i = Inr ((v', [], []), i1)"
    "e' = ref (fst (tmp_column (Suc i1)))"
    "A = [DerivedColumn (GeneralSetFunction name (ref (fst (tmp_column i1))))
            (Some (fst (tmp_column (Suc i1))))]"
    "P = [DerivedColumn v' (Some (fst (tmp_column i1)))]"
    "i' = Suc (Suc i1)"
  using assms
  by (auto simp: tmp_column_def default_generator_next_def split: sum.splits prod.splits if_splits)

lemma split_loop_Cons_Inr:
  assumes "split_function_call_loop (arg # rest) i = Inr ((es', A, P), i')"
  obtains a' Aa Pa i1 rest' Ar Pr where
    "split arg i = Inr ((a', Aa, Pa), i1)"
    "split_function_call_loop rest i1 = Inr ((rest', Ar, Pr), i')"
    "es' = a' # rest'" "A = Aa @ Ar" "P = Pa @ Pr"
  using assms by (auto split: sum.splits prod.splits)

subsection \<open>Invariants of the splitter\<close>

text \<open>An expression without aggregates whose nodes all have handlers is returned as it is.\<close>

lemma split_scalar:
  "has_handler e \<Longrightarrow> count_gsf e = 0 \<Longrightarrow> split e i = Inr ((e, [], []), i)"
  "has_handler_list es \<Longrightarrow> count_gsf_list es = 0 \<Longrightarrow>
     split_function_call_loop es i = Inr ((es, [], []), i)"
  by (induction e i and es i rule: split_split_function_call_loop.induct) auto

lemma split_aggregates_scalar:
  "has_handler_list cols \<Longrightarrow> count_gsf_list cols = 0 \<Longrightarrow>
     split_aggregates cols i = Inr ((cols, [], []), i)"
  by (induction cols) (simp_all add: split_aggregate_def split_scalar(1))

text \<open>
  A successful split returns one aggregate and one pre-aggregate for each
  \<^verbatim>\<open>GeneralSetFunction\<close> node, leaves none in the rewritten expression and draws two
  ids for each.
\<close>

lemma split_counts:
  "split e i = Inr ((e', A, P), i') \<Longrightarrow>
     length A = count_gsf e \<and> length P = count_gsf e \<and> count_gsf e' = 0 \<and>
     i' = i + 2 * count_gsf e"
  "split_function_call_loop es i = Inr ((es', A, P), i') \<Longrightarrow>
     length A = count_gsf_list es \<and> length P = count_gsf_list es \<and>
     count_gsf_list es' = 0 \<and> i' = i + 2 * count_gsf_list es"
proof (induction e i and es i arbitrary: e' A P i' and es' A P i'
    rule: split_split_function_call_loop.induct)
  case (1 v al i)
  from "1.prems" obtain v' where "split v i = Inr ((v', A, P), i')" "e' = DerivedColumn v' al"
    by (rule split_DerivedColumn_Inr)
  with "1.IH" show ?case by simp
next
  case (3 name v i)
  from "3.prems" obtain v' i1 where v: "split v i = Inr ((v', [], []), i1)"
    and r: "e' = ref (fst (tmp_column (Suc i1)))"
      "A = [DerivedColumn (GeneralSetFunction name (ref (fst (tmp_column i1))))
              (Some (fst (tmp_column (Suc i1))))]"
      "P = [DerivedColumn v' (Some (fst (tmp_column i1)))]"
      "i' = Suc (Suc i1)"
    by (rule split_GeneralSetFunction_Inr)
  from "3.IH" [OF v] have "count_gsf v = 0" "i1 = i" by simp_all
  with r show ?case by (simp add: count_gsf_ref)
next
  case (4 op l r i)
  from "4.prems" obtain l' Al Pl i1 r' Ar Pr where
    l: "split l i = Inr ((l', Al, Pl), i1)" and r: "split r i1 = Inr ((r', Ar, Pr), i')"
    and s: "e' = BinaryExpression op l' r'" "A = Al @ Ar" "P = Pl @ Pr"
    by (rule split_BinaryExpression_Inr)
  from "4.IH"(1) [OF l] "4.IH"(2) [OF l refl refl refl r] s
  show ?case by simp
next
  case (5 op operand i)
  from "5.prems" obtain v' where "split operand i = Inr ((v', A, P), i')"
    "e' = UnaryExpression op v'"
    by (rule split_UnaryExpression_Inr)
  with "5.IH" show ?case by simp
next
  case (6 name arguments i)
  from "6.prems" obtain es' where "split_function_call_loop arguments i = Inr ((es', A, P), i')"
    "e' = FunctionCall name es'"
    by (rule split_FunctionCall_Inr)
  with "6.IH" show ?case by simp
next
  case (16 arg rest i)
  from "16.prems" obtain a' Aa Pa i1 rest' Ar Pr where
    a: "split arg i = Inr ((a', Aa, Pa), i1)"
    and r: "split_function_call_loop rest i1 = Inr ((rest', Ar, Pr), i')"
    and s: "es' = a' # rest'" "A = Aa @ Ar" "P = Pa @ Pr"
    by (rule split_loop_Cons_Inr)
  from "16.IH"(1) [OF a] "16.IH"(2) [OF a refl refl refl r] s
  show ?case by simp
qed simp_all

text \<open>On an expression whose nodes all have handlers the only error is the nesting error.\<close>

lemma split_error_handled:
  "has_handler e \<Longrightarrow> split e i = Inl err \<Longrightarrow> err = NestedAggregateError"
  "has_handler_list es \<Longrightarrow> split_function_call_loop es i = Inl err \<Longrightarrow>
     err = NestedAggregateError"
  by (induction e i and es i rule: split_split_function_call_loop.induct)
     (auto split: sum.splits if_splits prod.splits)

text \<open>A split that succeeds has met handlers only, and no aggregate inside an aggregate.\<close>

lemma split_ok_handled:
  "split e i = Inr r \<Longrightarrow> has_handler e \<and> \<not> nested_aggregate e"
  "split_function_call_loop es i = Inr rs \<Longrightarrow>
     has_handler_list es \<and> \<not> nested_aggregate_list es"
proof (induction e i and es i arbitrary: r and rs rule: split_split_function_call_loop.induct)
  case (3 name v i)
  obtain e' A P i' where r: "r = ((e', A, P), i')" by (cases r) auto
  from "3.prems" [unfolded r] obtain v' i1 where v: "split v i = Inr ((v', [], []), i1)"
    by (rule split_GeneralSetFunction_Inr)
  from split_counts(1) [OF v] "3.IH" [OF v] show ?case by simp
qed (auto split: sum.splits if_splits prod.splits)

subsection \<open>The splitter claims\<close>

text \<open>
  C1. Compiling the statement of \<^verbatim>\<open>SELECT SUM(a) as s FROM t\<close> (one derived column
  \<^verbatim>\<open>SUM(a)\<close> with alias \<^verbatim>\<open>s\<close>, the from clause \<^verbatim>\<open>[TableName('t')]\<close>, no other
  clause, set quantifier \<^verbatim>\<open>ALL\<close>) with a fresh default id generator returns the plan
  \<^verbatim>\<open>Transform(Aggregate(Transform(GetTable('t'), [a as $0]), [SUM($0) as $1], None), [$1 as s])\<close>
  and leaves the generator after two draws; the two ids drawn are \<^verbatim>\<open>$0\<close>, then \<^verbatim>\<open>$1\<close>.
\<close>

theorem select_sum_plan:
  "compile_dag
     (Select (SelectColumns
                [DerivedColumn (GeneralSetFunction ''SUM'' (ColumnReference [''a''])) (Some ''s'')])
             [TableName ''t'' None] None None None None None ''ALL'') 0
   = Inr (Transform
            (Aggregate
               (Transform (GetTable ''t'' None)
                  [DerivedColumn (ColumnReference [''a'']) (Some ''$0'')])
               [DerivedColumn (GeneralSetFunction ''SUM'' (ColumnReference [''$0''])) (Some ''$1'')]
               None)
            [DerivedColumn (ColumnReference [''$1'']) (Some ''s'')],
          2)
   \<and> tmp_column 0 = (''$0'', 1) \<and> tmp_column 1 = (''$1'', 2)"
  by (simp add: compile_dag_def compile_select_steps_def transform_table_def split_aggregate_def
      tmp_column_small ref_def normalize_group_by_def filter_pre_transform_def
      filter_post_transform_def order_def limit_step_def drop_duplicates_def
      case_conversion_defs)

text \<open>
  C2, as the code has it. For every expression that contains no
  \<^verbatim>\<open>GeneralSetFunction\<close> and is built from the node classes the splitter has handlers
  for (\<^verbatim>\<open>ColumnReference\<close>, \<^verbatim>\<open>Integer\<close>, \<^verbatim>\<open>Float\<close>, \<^verbatim>\<open>BinaryExpression\<close>,
  \<^verbatim>\<open>UnaryExpression\<close>, \<^verbatim>\<open>FunctionCall\<close>, \<^verbatim>\<open>DerivedColumn\<close>),
  \<^verbatim>\<open>split_aggregate\<close> returns the expression unchanged with an empty aggregate list and
  an empty pre-aggregate list, and draws no id.
\<close>

theorem split_scalar_fixpoint:
  "has_handler e \<Longrightarrow> count_gsf e = 0 \<Longrightarrow> split_aggregate e i = Inr ((e, [], []), i)"
  by (simp add: split_aggregate_def split_scalar(1))

theorem split_scalar_fixpoint_witness:
  "has_handler (BinaryExpression ''add'' (ColumnReference [''a''])
       (FunctionCall ''ABS'' [UnaryExpression ''neg'' (Integer ''2''), Float ''1.5'']))
   \<and> count_gsf (BinaryExpression ''add'' (ColumnReference [''a''])
       (FunctionCall ''ABS'' [UnaryExpression ''neg'' (Integer ''2''), Float ''1.5''])) = 0
   \<and> split_aggregate (BinaryExpression ''add'' (ColumnReference [''a''])
       (FunctionCall ''ABS'' [UnaryExpression ''neg'' (Integer ''2''), Float ''1.5''])) 0
     = Inr ((BinaryExpression ''add'' (ColumnReference [''a''])
       (FunctionCall ''ABS'' [UnaryExpression ''neg'' (Integer ''2''), Float ''1.5'']), [], []), 0)"
  using split_scalar_fixpoint
    [of "BinaryExpression ''add'' (ColumnReference [''a''])
       (FunctionCall ''ABS'' [UnaryExpression ''neg'' (Integer ''2''), Float ''1.5''])" 0]
  by simp

text \<open>
  C2 as it is written fails on a string literal: \<^verbatim>\<open>String('abc')\<close> contains no
  \<^verbatim>\<open>GeneralSetFunction\<close>, the class has no \<^verbatim>\<open>split_string\<close>, and the split fails.
\<close>

theorem split_string_literal_fails:
  "count_gsf (String ''abc'') = 0 \<and> split_aggregate (String ''abc'') 0 = Inl NoHandler"
  by (simp add: split_aggregate_def)

text \<open>
  C3, as the code has it. Splitting \<^verbatim>\<open>GeneralSetFunction(name, Asterisk)\<close>, the form of
  \<^verbatim>\<open>COUNT(*)\<close>, fails: the argument is split first and the class has no
  \<^verbatim>\<open>split_asterisk\<close>. An aggregate over an argument without aggregates whose nodes have
  handlers, such as \<^verbatim>\<open>COUNT(a)\<close>, succeeds: the result is a \<^verbatim>\<open>ColumnReference\<close> to
  the second fresh alias, one aggregate entry and one pre-aggregate entry, and two ids are
  drawn.
\<close>

theorem split_set_function:
  "split_aggregate (GeneralSetFunction name Asterisk) i = Inl NoHandler \<and>
   (has_handler v \<and> count_gsf v = 0 \<longrightarrow>
      split_aggregate (GeneralSetFunction name v) i =
        Inr ((ColumnReference [fst (tmp_column (Suc i))],
              [DerivedColumn (GeneralSetFunction name (ColumnReference [fst (tmp_column i)]))
                 (Some (fst (tmp_column (Suc i))))],
              [DerivedColumn v (Some (fst (tmp_column i)))]), i + 2))"
  by (auto simp: split_aggregate_def split_scalar(1) ref_def tmp_column_def
      default_generator_next_def)

theorem split_set_function_witness:
  "split_aggregate (GeneralSetFunction ''COUNT'' Asterisk) 0 = Inl NoHandler \<and>
   has_handler (ColumnReference [''a'']) \<and> count_gsf (ColumnReference [''a'']) = 0 \<and>
   split_aggregate (GeneralSetFunction ''COUNT'' (ColumnReference [''a''])) 0 =
     Inr ((ColumnReference [''$1''],
           [DerivedColumn (GeneralSetFunction ''COUNT'' (ColumnReference [''$0''])) (Some ''$1'')],
           [DerivedColumn (ColumnReference [''a'']) (Some ''$0'')]), 2)"
proof -
  have h: "has_handler (ColumnReference [''a'']) \<and> count_gsf (ColumnReference [''a'']) = 0"
    by simp
  from split_set_function [of "''COUNT''" 0 "ColumnReference [''a'']"] h
  show ?thesis by (simp add: tmp_column_small)
qed

text \<open>C3 as it is written fails: the split of \<^verbatim>\<open>COUNT(*)\<close> does not succeed.\<close>

theorem split_count_asterisk_fails:
  "split_aggregate (GeneralSetFunction ''COUNT'' Asterisk) 0 = Inl NoHandler"
  by (simp add: split_aggregate_def)

text \<open>
  C4, as the code has it. For every expression built from the node classes the splitter
  has handlers for, in which a \<^verbatim>\<open>GeneralSetFunction\<close> occurs inside the argument of
  another one, \<^verbatim>\<open>split_aggregate\<close> fails with the nesting error. Every expression with
  such a nesting fails with some error. The check of the source,
  \<^verbatim>\<open>if aggs or pre_aggs\<close> on the result of splitting the argument, is the check that
  the aggregate list is non-empty, since the two lists have the same length.
\<close>

theorem split_nested_rejected:
  "(has_handler e \<and> nested_aggregate e \<longrightarrow> split_aggregate e i = Inl NestedAggregateError) \<and>
   (nested_aggregate e \<longrightarrow> (\<exists>err. split_aggregate e i = Inl err)) \<and>
   (\<forall>e' aggs pre_aggs i'. split_aggregate e i = Inr ((e', aggs, pre_aggs), i') \<longrightarrow>
      (aggs \<noteq> [] \<or> pre_aggs \<noteq> []) = (aggs \<noteq> []))"
proof (intro conjI impI allI)
  assume h: "has_handler e \<and> nested_aggregate e"
  show "split_aggregate e i = Inl NestedAggregateError"
  proof (cases "split e i")
    case (Inl err)
    with h have "err = NestedAggregateError" using split_error_handled(1) by blast
    with Inl show ?thesis by (simp add: split_aggregate_def)
  next
    case (Inr r)
    with h show ?thesis using split_ok_handled(1) by blast
  qed
next
  assume n: "nested_aggregate e"
  show "\<exists>err. split_aggregate e i = Inl err"
  proof (cases "split e i")
    case (Inl err)
    then show ?thesis by (simp add: split_aggregate_def)
  next
    case (Inr r)
    with n show ?thesis using split_ok_handled(1) by blast
  qed
next
  fix e' aggs pre_aggs i'
  assume "split_aggregate e i = Inr ((e', aggs, pre_aggs), i')"
  then have "length aggs = length pre_aggs"
    using split_counts(1) by (simp add: split_aggregate_def)
  then show "(aggs \<noteq> [] \<or> pre_aggs \<noteq> []) = (aggs \<noteq> [])" by auto
qed

theorem split_nested_rejected_witness:
  "has_handler (GeneralSetFunction ''SUM'' (GeneralSetFunction ''SUM'' (ColumnReference [''a''])))
   \<and> nested_aggregate
       (GeneralSetFunction ''SUM'' (GeneralSetFunction ''SUM'' (ColumnReference [''a''])))
   \<and> split_aggregate
       (GeneralSetFunction ''SUM'' (GeneralSetFunction ''SUM'' (ColumnReference [''a'']))) 0
     = Inl NestedAggregateError
   \<and> split_aggregate (GeneralSetFunction ''SUM'' (ColumnReference [''a''])) 0
     = Inr ((ColumnReference [''$1''],
             [DerivedColumn (GeneralSetFunction ''SUM'' (ColumnReference [''$0''])) (Some ''$1'')],
             [DerivedColumn (ColumnReference [''a'']) (Some ''$0'')]), 2)
   \<and> ([DerivedColumn (GeneralSetFunction ''SUM'' (ColumnReference [''$0''])) (Some ''$1'')] \<noteq> []
        \<or> [DerivedColumn (ColumnReference [''a'']) (Some ''$0'')] \<noteq> [])
     = ([DerivedColumn (GeneralSetFunction ''SUM'' (ColumnReference [''$0''])) (Some ''$1'')] \<noteq> [])"
proof -
  have ev: "split_aggregate (GeneralSetFunction ''SUM'' (ColumnReference [''a''])) 0
     = Inr ((ColumnReference [''$1''],
             [DerivedColumn (GeneralSetFunction ''SUM'' (ColumnReference [''$0''])) (Some ''$1'')],
             [DerivedColumn (ColumnReference [''a'']) (Some ''$0'')]), 2)"
    by (simp add: split_aggregate_def ref_def tmp_column_small)
  from split_nested_rejected
    [of "GeneralSetFunction ''SUM'' (GeneralSetFunction ''SUM'' (ColumnReference [''a'']))" 0]
  have nested: "split_aggregate
       (GeneralSetFunction ''SUM'' (GeneralSetFunction ''SUM'' (ColumnReference [''a'']))) 0
     = Inl NestedAggregateError"
    by simp
  from split_nested_rejected [of "GeneralSetFunction ''SUM'' (ColumnReference [''a''])" 0] ev
  have "([DerivedColumn (GeneralSetFunction ''SUM'' (ColumnReference [''$0''])) (Some ''$1'')] \<noteq> []
        \<or> [DerivedColumn (ColumnReference [''a'']) (Some ''$0'')] \<noteq> [])
     = ([DerivedColumn (GeneralSetFunction ''SUM'' (ColumnReference [''$0''])) (Some ''$1'')] \<noteq> [])"
    by blast
  with nested ev show ?thesis by simp
qed

text \<open>
  C4 as it is written fails on \<^verbatim>\<open>SUM(COUNT(*))\<close>: an aggregate inside the argument of
  an aggregate, and the error is the missing handler of \<^verbatim>\<open>Asterisk\<close>, not the nesting
  error.
\<close>

theorem split_nested_count_asterisk:
  "nested_aggregate (GeneralSetFunction ''SUM'' (GeneralSetFunction ''COUNT'' Asterisk)) \<and>
   split_aggregate (GeneralSetFunction ''SUM'' (GeneralSetFunction ''COUNT'' Asterisk)) 0
     = Inl NoHandler \<and>
   split_aggregate (GeneralSetFunction ''SUM'' (GeneralSetFunction ''COUNT'' Asterisk)) 0
     \<noteq> Inl NestedAggregateError"
  by (simp add: split_aggregate_def)

text \<open>
  C5. For every expression on which \<^verbatim>\<open>split_aggregate\<close> succeeds, the length of the
  returned aggregate list is the number of \<^verbatim>\<open>GeneralSetFunction\<close> nodes of the
  expression, and the rewritten expression contains no \<^verbatim>\<open>GeneralSetFunction\<close> node.
\<close>

theorem split_count_invariance:
  "split_aggregate e i = Inr ((e', aggregates, pre_aggregates), i') \<Longrightarrow>
     length aggregates = count_gsf e \<and> count_gsf e' = 0"
  using split_counts(1) by (simp add: split_aggregate_def)

theorem split_count_invariance_witness:
  "split_aggregate
     (BinaryExpression ''sub'' (GeneralSetFunction ''SUM'' (ColumnReference [''a'']))
        (BinaryExpression ''mul'' (Integer ''3'')
           (GeneralSetFunction ''AVG'' (ColumnReference [''a''])))) 0
   = Inr ((BinaryExpression ''sub'' (ColumnReference [''$1''])
             (BinaryExpression ''mul'' (Integer ''3'') (ColumnReference [''$3''])),
           [DerivedColumn (GeneralSetFunction ''SUM'' (ColumnReference [''$0''])) (Some ''$1''),
            DerivedColumn (GeneralSetFunction ''AVG'' (ColumnReference [''$2''])) (Some ''$3'')],
           [DerivedColumn (ColumnReference [''a'']) (Some ''$0''),
            DerivedColumn (ColumnReference [''a'']) (Some ''$2'')]), 4)
   \<and> length [DerivedColumn (GeneralSetFunction ''SUM'' (ColumnReference [''$0''])) (Some ''$1''),
            DerivedColumn (GeneralSetFunction ''AVG'' (ColumnReference [''$2''])) (Some ''$3'')]
     = count_gsf (BinaryExpression ''sub'' (GeneralSetFunction ''SUM'' (ColumnReference [''a'']))
        (BinaryExpression ''mul'' (Integer ''3'')
           (GeneralSetFunction ''AVG'' (ColumnReference [''a'']))))
   \<and> count_gsf (BinaryExpression ''sub'' (ColumnReference [''$1''])
             (BinaryExpression ''mul'' (Integer ''3'') (ColumnReference [''$3'']))) = 0"
proof -
  have ev: "split_aggregate
     (BinaryExpression ''sub'' (GeneralSetFunction ''SUM'' (ColumnReference [''a'']))
        (BinaryExpression ''mul'' (Integer ''3'')
           (GeneralSetFunction ''AVG'' (ColumnReference [''a''])))) 0
   = Inr ((BinaryExpression ''sub'' (ColumnReference [''$1''])
             (BinaryExpression ''mul'' (Integer ''3'') (ColumnReference [''$3''])),
           [DerivedColumn (GeneralSetFunction ''SUM'' (ColumnReference [''$0''])) (Some ''$1''),
            DerivedColumn (GeneralSetFunction ''AVG'' (ColumnReference [''$2''])) (Some ''$3'')],
           [DerivedColumn (ColumnReference [''a'']) (Some ''$0''),
            DerivedColumn (ColumnReference [''a'']) (Some ''$2'')]), 4)"
    by (simp add: split_aggregate_def ref_def tmp_column_small)
  from split_count_invariance [OF ev] ev show ?thesis by simp
qed

subsection \<open>The steps of the compiler\<close>

lemma compile_select_Inr:
  assumes "compile_select node i = Inr (p, i')"
  obtains t i1 t1 t2 where
    "compile_from_clause (from_clause node) i = Inr (t, i1)"
    "transform_table node (filter_pre_transform node t) i1 = Inr (t1, i')"
    "drop_duplicates node (filter_post_transform node t1) = Inr t2"
    "p = limit_step node t2"
  using assms
  by (auto simp: compile_select_steps_def split: sum.splits prod.splits)

lemma transform_table_columns:
  assumes "select_list node = SelectColumns cols" "transform_table node t i = Inr (p, i')"
  obtains t' columns where "p = Transform t' columns"
  using assms
  by (auto simp: transform_table_def Let_def split: sum.splits prod.splits)

lemma drop_duplicates_Inr:
  assumes "drop_duplicates node t = Inr t2"
  shows "t2 = (if upper (set_quantifier node) = ''DISTINCT'' then DropDuplicates t else t)"
  using assms by (auto simp: drop_duplicates_def Let_def split: if_splits)

lemma DropDuplicates_neq: "DropDuplicates t \<noteq> t"
  by (induction t) simp_all

lemma normalize_group_by_loop_Nil_iff:
  "snd (fst (normalize_group_by_loop g i)) = [] \<longleftrightarrow> g = []"
  by (cases g) (simp_all split: prod.splits)

lemma transform_table_scalar_group_by:
  assumes "select_list node = SelectColumns cols" "has_handler_list cols" "count_gsf_list cols = 0"
    "group_by_clause node = Some g"
  shows "transform_table node t i =
     Inr (Transform
            (order node
               (if g = [] then t else Transform t (snd (fst (normalize_group_by_loop g i)))))
            cols,
          snd (normalize_group_by_loop g i))"
proof -
  obtain gb gcols i2 where n: "normalize_group_by_loop g i = ((gb, gcols), i2)"
    by (metis surj_pair)
  with normalize_group_by_loop_Nil_iff [of g i] have "gcols = [] \<longleftrightarrow> g = []" by simp
  with assms n show ?thesis
    by (simp add: transform_table_def split_aggregates_scalar normalize_group_by_def Let_def)
qed

lemma compile_from_clause_loop_names:
  "compile_from_clause_loop (map (\<lambda>(t, a). TableName t a) rest) acc i =
     Inr (foldl CrossJoin acc (map (\<lambda>(t, a). GetTable t a) rest), i)"
  by (induction rest arbitrary: acc) (simp_all split: prod.splits)

text \<open>The steps after the from clause add no join.\<close>

lemma order_hows: "plan_hows (order node t) = plan_hows t"
  by (simp add: order_def split: option.splits)

lemma transform_table_hows:
  assumes "transform_table node t i = Inr (p, i')"
  shows "plan_hows p = plan_hows t"
proof (cases "select_list node")
  case SelectAsterisk
  with assms show ?thesis
    by (auto simp: transform_table_def order_hows split: if_splits)
next
  case (SelectColumns cols)
  with assms show ?thesis
    by (auto simp: transform_table_def Let_def order_hows split: sum.splits prod.splits)
qed

lemma compile_select_steps_hows:
  assumes "compile_select_steps node t i = Inr (p, i')"
  shows "plan_hows p = plan_hows t"
proof -
  from assms obtain t1 t2 where
    tt: "transform_table node (filter_pre_transform node t) i = Inr (t1, i')"
    and dd: "drop_duplicates node (filter_post_transform node t1) = Inr t2"
    and p: "p = limit_step node t2"
    by (auto simp: compile_select_steps_def split: sum.splits prod.splits)
  have "plan_hows p = plan_hows t2"
    using p by (simp add: limit_step_def split: option.splits)
  also have "\<dots> = plan_hows (filter_post_transform node t1)"
    using drop_duplicates_Inr [OF dd] by simp
  also have "\<dots> = plan_hows t1"
    by (simp add: filter_post_transform_def split: option.splits)
  also have "\<dots> = plan_hows (filter_pre_transform node t)"
    using tt by (rule transform_table_hows)
  also have "\<dots> = plan_hows t"
    by (simp add: filter_pre_transform_def split: option.splits)
  finally show ?thesis .
qed

text \<open>The join kinds of a plan are the lowercased join kinds of its statement, in order.\<close>

lemma compile_hows:
  "compile_select node i = Inr (p, i') \<Longrightarrow> plan_hows p = map lower (select_hows node)"
  "compile_from_clause ts i = Inr (p, i') \<Longrightarrow> plan_hows p = map lower (tables_hows ts)"
  "compile_from_clause_loop ts acc i = Inr (p, i') \<Longrightarrow>
     plan_hows p = plan_hows acc @ map lower (tables_hows ts)"
  "compile_single_table tb i = Inr (p, i') \<Longrightarrow> plan_hows p = map lower (table_hows tb)"
  "compile_joins js acc i = Inr (p, i') \<Longrightarrow>
     plan_hows p = plan_hows acc @ map lower (joins_hows js)"
proof (induction node i and ts i and ts acc i and tb i and js acc i
    arbitrary: p i' and p i' and p i' and p i' and p i'
    rule: compile_select_compile_from_clause_compile_from_clause_loop_compile_single_table_compile_joins.induct)
  case (1 node i)
  from "1.prems" obtain t i1 where f: "compile_from_clause (from_clause node) i = Inr (t, i1)"
    and s: "compile_select_steps node t i1 = Inr (p, i')"
    by (auto split: sum.splits prod.splits)
  from "1.IH" [OF f] compile_select_steps_hows [OF s] show ?case
    by (cases node) simp
next
  case (2 i)
  then show ?case by simp
next
  case (3 head tail i)
  from "3.prems" obtain r i1 where h: "compile_single_table head i = Inr (r, i1)"
    and l: "compile_from_clause_loop tail r i1 = Inr (p, i')"
    by (auto split: sum.splits prod.splits)
  from "3.IH"(1) [OF h] "3.IH"(2) [OF h refl l] show ?case by simp
next
  case (4 result i)
  then show ?case by simp
next
  case (5 nxt rest result i)
  from "5.prems" obtain r i1 where h: "compile_single_table nxt i = Inr (r, i1)"
    and l: "compile_from_clause_loop rest (CrossJoin result r) i1 = Inr (p, i')"
    by (auto split: sum.splits prod.splits)
  from "5.IH"(1) [OF h] "5.IH"(2) [OF h refl l] show ?case by simp
next
  case (6 t al i)
  then show ?case by auto
next
  case (7 s i)
  then show ?case by simp
next
  case (8 t joins i)
  from "8.prems" obtain r i1 where h: "compile_from_clause [t] i = Inr (r, i1)"
    and l: "compile_joins joins r i1 = Inr (p, i')"
    by (auto split: sum.splits prod.splits)
  from "8.IH"(1) [OF h] "8.IH"(2) [OF h refl l] show ?case by simp
next
  case (9 result i)
  then show ?case by simp
next
  case (10 how t on rest result i)
  from "10.prems" obtain r i1 where h: "compile_from_clause [t] i = Inr (r, i1)"
    and l: "compile_joins rest (Join result r (lower how) on) i1 = Inr (p, i')"
    by (auto split: sum.splits prod.splits)
  from "10.IH"(1) [OF h] "10.IH"(2) [OF h refl l] show ?case by simp
next
  case (11 t rest result i)
  from "11.prems" obtain r i1 where h: "compile_from_clause [t] i = Inr (r, i1)"
    and l: "compile_joins rest (CrossJoin result r) i1 = Inr (p, i')"
    by (auto split: sum.splits prod.splits)
  from "11.IH"(1) [OF h] "11.IH"(2) [OF h refl l] show ?case by simp
qed

subsection \<open>The compiler claims\<close>

text \<open>
  C6. For every statement with a select list other than the asterisk, a compiled plan is,
  from the root inward: a \<^verbatim>\<open>Limit\<close> exactly when the limit clause is present, then a
  \<^verbatim>\<open>DropDuplicates\<close> exactly when the set quantifier is \<^verbatim>\<open>DISTINCT\<close> (in any
  capitalisation), then a \<^verbatim>\<open>Filter\<close> with the having predicate exactly when the having
  clause is present, then the \<^verbatim>\<open>Transform\<close> of the final projection. The having filter
  is above the final projection.
\<close>

theorem compile_select_outer_stages:
  assumes "select_list node = SelectColumns cols"
    and "compile_select node i = Inr (p, i')"
  shows "\<exists>t columns.
    let projection = Transform t columns;
        filtered = (case having_clause node of
                      None \<Rightarrow> projection
                    | Some h \<Rightarrow> Filter projection h);
        distinct = (if upper (set_quantifier node) = ''DISTINCT''
                    then DropDuplicates filtered else filtered)
    in p = (case limit_clause node of
              None \<Rightarrow> distinct
            | Some l \<Rightarrow> Limit distinct (offset l) (limit l))"
proof -
  from assms(2) obtain t i1 t1 t2 where
    tt: "transform_table node (filter_pre_transform node t) i1 = Inr (t1, i')"
    and dd: "drop_duplicates node (filter_post_transform node t1) = Inr t2"
    and p: "p = limit_step node t2"
    by (rule compile_select_Inr)
  from assms(1) tt obtain t' columns where t1: "t1 = Transform t' columns"
    by (rule transform_table_columns)
  from drop_duplicates_Inr [OF dd] p t1 show ?thesis
    by (auto simp: Let_def limit_step_def filter_post_transform_def split: option.splits)
qed

theorem compile_select_outer_stages_witness:
  "select_list
     (Select (SelectColumns [DerivedColumn (ColumnReference [''g'']) None])
        [TableName ''t'' None] None None
        (Some (BinaryExpression ''gt'' (ColumnReference [''g'']) (Integer ''0''))) None
        (Some \<lparr>offset = 1, limit = 2\<rparr>) ''distinct'')
     = SelectColumns [DerivedColumn (ColumnReference [''g'']) None]
   \<and> compile_select
     (Select (SelectColumns [DerivedColumn (ColumnReference [''g'']) None])
        [TableName ''t'' None] None None
        (Some (BinaryExpression ''gt'' (ColumnReference [''g'']) (Integer ''0''))) None
        (Some \<lparr>offset = 1, limit = 2\<rparr>) ''distinct'') 0
     = Inr (Limit
             (DropDuplicates
               (Filter
                 (Transform (GetTable ''t'' None) [DerivedColumn (ColumnReference [''g'']) None])
                 (BinaryExpression ''gt'' (ColumnReference [''g'']) (Integer ''0''))))
             1 2, 0)
   \<and> (\<exists>t columns.
        Limit
          (DropDuplicates
            (Filter
              (Transform (GetTable ''t'' None) [DerivedColumn (ColumnReference [''g'']) None])
              (BinaryExpression ''gt'' (ColumnReference [''g'']) (Integer ''0''))))
          1 2
        = Limit
            (DropDuplicates
              (Filter (Transform t columns)
                 (BinaryExpression ''gt'' (ColumnReference [''g'']) (Integer ''0''))))
            1 2)"
proof -
  let ?node = "Select (SelectColumns [DerivedColumn (ColumnReference [''g'']) None])
        [TableName ''t'' None] None None
        (Some (BinaryExpression ''gt'' (ColumnReference [''g'']) (Integer ''0''))) None
        (Some \<lparr>offset = 1, limit = 2\<rparr>) ''distinct''"
  let ?p = "Limit
             (DropDuplicates
               (Filter
                 (Transform (GetTable ''t'' None) [DerivedColumn (ColumnReference [''g'']) None])
                 (BinaryExpression ''gt'' (ColumnReference [''g'']) (Integer ''0''))))
             1 2"
  have up: "upper ''distinct'' = ''DISTINCT''"
    by (simp add: case_conversion_defs)
  have h1: "select_list ?node = SelectColumns [DerivedColumn (ColumnReference [''g'']) None]"
    by simp
  have h2: "compile_select ?node 0 = Inr (?p, 0)"
    by (simp add: compile_select_steps_def transform_table_def split_aggregate_def
        normalize_group_by_def filter_pre_transform_def filter_post_transform_def order_def
        limit_step_def drop_duplicates_def up)
  from compile_select_outer_stages [OF h1 h2] have
    "\<exists>t columns. ?p = Limit (DropDuplicates (Filter (Transform t columns)
        (BinaryExpression ''gt'' (ColumnReference [''g'']) (Integer ''0'')))) 1 2"
    by (simp add: up)
  with h1 h2 show ?thesis by blast
qed

text \<open>
  C7, as the code has it. A statement whose select list is the asterisk and whose group-by
  clause is present is rejected. A statement whose select list is a sequence of columns
  without any \<^verbatim>\<open>GeneralSetFunction\<close> (all nodes with handlers) and whose group-by
  clause is present is not rejected: when the from clause compiles and the set quantifier
  is \<^verbatim>\<open>ALL\<close> or \<^verbatim>\<open>DISTINCT\<close>, compilation succeeds; the group-by columns are
  projected by a \<^verbatim>\<open>Transform\<close> under the final projection (when there are any) and
  no \<^verbatim>\<open>Aggregate\<close> node is made.
\<close>

theorem group_by_without_aggregates:
  "(select_list node = SelectAsterisk \<and> group_by_clause node \<noteq> None \<longrightarrow>
      (\<exists>e. compile_select node i = Inl e)) \<and>
   (select_list node = SelectColumns cols \<and> has_handler_list cols \<and> count_gsf_list cols = 0 \<and>
    group_by_clause node = Some g \<and>
    compile_from_clause (from_clause node) i = Inr (t, i1) \<and>
    (upper (set_quantifier node) = ''ALL'' \<or> upper (set_quantifier node) = ''DISTINCT'') \<longrightarrow>
      compile_select node i =
        Inr (limit_step node
               ((if upper (set_quantifier node) = ''DISTINCT'' then DropDuplicates else (\<lambda>p. p))
                  (filter_post_transform node
                     (Transform
                        (order node
                           (if g = [] then filter_pre_transform node t
                            else Transform (filter_pre_transform node t)
                                   (snd (fst (normalize_group_by_loop g i1)))))
                        cols))),
             snd (normalize_group_by_loop g i1)))"
proof (intro conjI impI)
  assume a: "select_list node = SelectAsterisk \<and> group_by_clause node \<noteq> None"
  then have tt: "\<And>t' j. transform_table node t' j = Inl AsteriskWithGroupBy"
    by (simp add: transform_table_def)
  show "\<exists>e. compile_select node i = Inl e"
  proof (cases "compile_select node i")
    case (Inl e)
    then show ?thesis by blast
  next
    case (Inr r)
    obtain p i' where "r = (p, i')" by (cases r)
    with Inr have "compile_select node i = Inr (p, i')" by simp
    then obtain t0 j t1 where "transform_table node (filter_pre_transform node t0) j = Inr (t1, i')"
      by (rule compile_select_Inr)
    with tt show ?thesis by simp
  qed
next
  assume b: "select_list node = SelectColumns cols \<and> has_handler_list cols \<and>
    count_gsf_list cols = 0 \<and> group_by_clause node = Some g \<and>
    compile_from_clause (from_clause node) i = Inr (t, i1) \<and>
    (upper (set_quantifier node) = ''ALL'' \<or> upper (set_quantifier node) = ''DISTINCT'')"
  then have tt: "transform_table node (filter_pre_transform node t) i1 =
     Inr (Transform
            (order node
               (if g = [] then filter_pre_transform node t
                else Transform (filter_pre_transform node t)
                       (snd (fst (normalize_group_by_loop g i1)))))
            cols,
          snd (normalize_group_by_loop g i1))"
    by (simp add: transform_table_scalar_group_by)
  from b show "compile_select node i =
        Inr (limit_step node
               ((if upper (set_quantifier node) = ''DISTINCT'' then DropDuplicates else (\<lambda>p. p))
                  (filter_post_transform node
                     (Transform
                        (order node
                           (if g = [] then filter_pre_transform node t
                            else Transform (filter_pre_transform node t)
                                   (snd (fst (normalize_group_by_loop g i1)))))
                        cols))),
             snd (normalize_group_by_loop g i1))"
    by (auto simp: compile_select_steps_def tt drop_duplicates_def Let_def)
qed

theorem group_by_without_aggregates_witness:
  "compile_select
     (Select SelectAsterisk [TableName ''t'' None] None (Some [ColumnReference [''b'']])
        None None None ''ALL'') 0 = Inl AsteriskWithGroupBy \<and>
   compile_select
     (Select (SelectColumns [DerivedColumn (ColumnReference [''g'']) None])
             [TableName ''t'' None] None (Some [BinaryExpression ''add'' (ColumnReference [''a''])
                (ColumnReference [''b''])]) None None None ''distinct'') 0
   = Inr (DropDuplicates
           (Transform
             (Transform (GetTable ''t'' None)
               [DerivedColumn (BinaryExpression ''add'' (ColumnReference [''a''])
                  (ColumnReference [''b''])) (Some ''$0'')])
             [DerivedColumn (ColumnReference [''g'']) None]),
          1)"
proof -
  let ?n1 = "Select SelectAsterisk [TableName ''t'' None] None (Some [ColumnReference [''b'']])
        None None None ''ALL''"
  let ?cols = "[DerivedColumn (ColumnReference [''g'']) None]"
  let ?g = "[BinaryExpression ''add'' (ColumnReference [''a'']) (ColumnReference [''b''])]"
  let ?n2 = "Select (SelectColumns ?cols) [TableName ''t'' None] None (Some ?g)
     None None None ''distinct''"
  have up: "upper ''distinct'' = ''DISTINCT''"
    by (simp add: case_conversion_defs)
  have up2: "upper ''ALL'' = ''ALL''"
    by (simp add: case_conversion_defs)
  have t0: "tmp_column 0 = (''$0'', 1)"
    by (simp add: tmp_column_small)
  have first: "compile_select ?n1 0 = Inl AsteriskWithGroupBy"
    by (simp add: compile_select_steps_def transform_table_def)
  have second: "compile_select ?n2 0 =
     Inr (limit_step ?n2
               ((if upper (set_quantifier ?n2) = ''DISTINCT'' then DropDuplicates else (\<lambda>p. p))
                  (filter_post_transform ?n2
                     (Transform
                        (order ?n2
                           (if ?g = [] then filter_pre_transform ?n2 (GetTable ''t'' None)
                            else Transform (filter_pre_transform ?n2 (GetTable ''t'' None))
                                   (snd (fst (normalize_group_by_loop ?g 0)))))
                        ?cols))),
             snd (normalize_group_by_loop ?g 0))"
    using group_by_without_aggregates [of ?n2 0 ?cols ?g "GetTable ''t'' None" 0]
    by (simp add: up)
  from first second show ?thesis
    by (simp add: up t0 group_by_col_alias_def filter_pre_transform_def
        filter_post_transform_def order_def limit_step_def)
qed

text \<open>
  C7 as it is written fails on \<^verbatim>\<open>SELECT a FROM t GROUP BY b\<close>: the select list
  contains no \<^verbatim>\<open>GeneralSetFunction\<close>, the group-by clause is present, and the
  compilation returns a plan.
\<close>

theorem select_group_by_without_aggregate_compiles:
  "count_gsf_list [DerivedColumn (ColumnReference [''a'']) None] = 0 \<and>
   compile_dag
     (Select (SelectColumns [DerivedColumn (ColumnReference [''a'']) None])
             [TableName ''t'' None] None (Some [ColumnReference [''b'']]) None None None ''ALL'') 0
   = Inr (Transform
            (Transform (GetTable ''t'' None)
               [DerivedColumn (ColumnReference [''b'']) (Some ''b'')])
            [DerivedColumn (ColumnReference [''a'']) None],
          0)"
  by (simp add: compile_dag_def compile_select_steps_def transform_table_def split_aggregate_def
      normalize_group_by_def group_by_col_alias_def filter_pre_transform_def
      filter_post_transform_def order_def limit_step_def drop_duplicates_def
      case_conversion_defs)

text \<open>
  C8. For a from clause of \<^verbatim>\<open>TableName\<close> entries \<open>t\<^sub>1, ..., t\<^sub>n\<close> with \<open>n \<ge> 1\<close>,
  \<^verbatim>\<open>compile_from_clause\<close> returns the left fold by \<^verbatim>\<open>CrossJoin\<close> over the
  \<^verbatim>\<open>GetTable\<close> nodes, starting from \<^verbatim>\<open>GetTable(t\<^sub>1)\<close>, and draws no id; for the empty from
  clause it fails with the error of the empty from clause.
\<close>

theorem compile_from_clause_table_names:
  "compile_from_clause [] i = Inl EmptyFromClause \<and>
   compile_from_clause (TableName t a # map (\<lambda>(t, a). TableName t a) rest) i =
     Inr (foldl CrossJoin (GetTable t a) (map (\<lambda>(t, a). GetTable t a) rest), i)"
  by (simp add: compile_from_clause_loop_names)

theorem compile_from_clause_three_tables:
  "compile_from_clause
     [TableName ''foo'' None, TableName ''bar'' (Some ''b''), TableName ''baz'' None] 0
   = Inr (CrossJoin (CrossJoin (GetTable ''foo'' None) (GetTable ''bar'' (Some ''b'')))
            (GetTable ''baz'' None), 0)"
  using compile_from_clause_table_names
    [of 0 "''foo''" None "[(''bar'', Some ''b''), (''baz'', None)]"]
  by simp

text \<open>
  C9. The check of the set quantifier ignores case: \<^verbatim>\<open>_drop_duplicates\<close> wraps the
  plan in \<^verbatim>\<open>DropDuplicates\<close> exactly when the set quantifier in upper case is
  \<^verbatim>\<open>DISTINCT\<close>, returns the plan as it is exactly when it is \<^verbatim>\<open>ALL\<close>, and for any
  other value it fails, and so does the compilation of the statement.
\<close>

theorem drop_duplicates_case_insensitive:
  "(drop_duplicates node t = Inr (DropDuplicates t)) = (upper (set_quantifier node) = ''DISTINCT'')
   \<and> (drop_duplicates node t = Inr t) = (upper (set_quantifier node) = ''ALL'')
   \<and> (upper (set_quantifier node) \<noteq> ''ALL'' \<and> upper (set_quantifier node) \<noteq> ''DISTINCT'' \<longrightarrow>
        drop_duplicates node t = Inl UnknownSetQuantifier \<and>
        (\<exists>e. compile_select node i = Inl e))"
proof (intro conjI impI)
  show "(drop_duplicates node t = Inr (DropDuplicates t))
      = (upper (set_quantifier node) = ''DISTINCT'')"
    using DropDuplicates_neq [of t] by (auto simp: drop_duplicates_def Let_def)
  show "(drop_duplicates node t = Inr t) = (upper (set_quantifier node) = ''ALL'')"
    using DropDuplicates_neq [of t] by (auto simp: drop_duplicates_def Let_def)
next
  assume q: "upper (set_quantifier node) \<noteq> ''ALL'' \<and> upper (set_quantifier node) \<noteq> ''DISTINCT''"
  then show "drop_duplicates node t = Inl UnknownSetQuantifier"
    by (simp add: drop_duplicates_def Let_def)
  from q have dd: "\<And>t'. drop_duplicates node t' = Inl UnknownSetQuantifier"
    by (simp add: drop_duplicates_def Let_def)
  show "\<exists>e. compile_select node i = Inl e"
  proof (cases "compile_select node i")
    case (Inl e)
    then show ?thesis by blast
  next
    case (Inr r)
    obtain p i' where "r = (p, i')" by (cases r)
    with Inr have "compile_select node i = Inr (p, i')" by simp
    then obtain t1 t2 where "drop_duplicates node (filter_post_transform node t1) = Inr t2"
      by (rule compile_select_Inr)
    with dd show ?thesis by simp
  qed
qed

theorem drop_duplicates_case_insensitive_witness:
  "upper ''Distinct'' = ''DISTINCT''
   \<and> drop_duplicates
       (Select SelectAsterisk [TableName ''t'' None] None None None None None ''Distinct'')
       (GetTable ''t'' None)
     = Inr (DropDuplicates (GetTable ''t'' None))
   \<and> upper ''all'' = ''ALL''
   \<and> drop_duplicates
       (Select SelectAsterisk [TableName ''t'' None] None None None None None ''all'')
       (GetTable ''t'' None)
     = Inr (GetTable ''t'' None)
   \<and> upper ''unique'' \<noteq> ''ALL'' \<and> upper ''unique'' \<noteq> ''DISTINCT''
   \<and> drop_duplicates
       (Select SelectAsterisk [TableName ''t'' None] None None None None None ''unique'')
       (GetTable ''t'' None)
     = Inl UnknownSetQuantifier
   \<and> (\<exists>e. compile_select
       (Select SelectAsterisk [TableName ''t'' None] None None None None None ''unique'') 0
     = Inl e)"
proof -
  have u1: "upper ''Distinct'' = ''DISTINCT''" by (simp add: case_conversion_defs)
  have u2: "upper ''all'' = ''ALL''" by (simp add: case_conversion_defs)
  have u3: "upper ''unique'' = ''UNIQUE''" by (simp add: case_conversion_defs)
  from drop_duplicates_case_insensitive
    [of "Select SelectAsterisk [TableName ''t'' None] None None None None None ''Distinct''"
        "GetTable ''t'' None" 0]
  have a: "drop_duplicates
       (Select SelectAsterisk [TableName ''t'' None] None None None None None ''Distinct'')
       (GetTable ''t'' None)
     = Inr (DropDuplicates (GetTable ''t'' None))"
    by (simp add: u1)
  from drop_duplicates_case_insensitive
    [of "Select SelectAsterisk [TableName ''t'' None] None None None None None ''all''"
        "GetTable ''t'' None" 0]
  have b: "drop_duplicates
       (Select SelectAsterisk [TableName ''t'' None] None None None None None ''all'')
       (GetTable ''t'' None)
     = Inr (GetTable ''t'' None)"
    by (simp add: u2)
  from drop_duplicates_case_insensitive
    [of "Select SelectAsterisk [TableName ''t'' None] None None None None None ''unique''"
        "GetTable ''t'' None" 0]
  have c: "drop_duplicates
       (Select SelectAsterisk [TableName ''t'' None] None None None None None ''unique'')
       (GetTable ''t'' None)
     = Inl UnknownSetQuantifier
   \<and> (\<exists>e. compile_select
       (Select SelectAsterisk [TableName ''t'' None] None None None None None ''unique'') 0
     = Inl e)"
    by (simp add: u3)
  from a b c u1 u2 u3 show ?thesis by simp
qed

text \<open>
  C10. Every \<^verbatim>\<open>Join\<close> node of a compiled plan carries the join kind of its
  \<^verbatim>\<open>Join\<close> in the statement in lower case: the join kinds of the plan are the
  lowercased join kinds of the statement, in the same order, and no join kind of the plan
  contains an upper-case letter.
\<close>

theorem join_kinds_lowercased:
  assumes "compile_dag node i = Inr (p, i')"
  shows "plan_hows p = map lower (select_hows node) \<and>
         (\<forall>how \<in> set (plan_hows p). \<forall>c \<in> set how. c \<notin> set uppercase_letters)"
proof -
  from assms have eq: "plan_hows p = map lower (select_hows node)"
    by (simp add: compile_dag_def compile_hows(1))
  have "\<forall>how \<in> set (map lower (select_hows node)). \<forall>c \<in> set how. c \<notin> set uppercase_letters"
    by (auto simp: lower_def lower_char_not_upper)
  with eq show ?thesis by simp
qed

theorem join_kinds_lowercased_witness:
  "compile_dag
     (Select SelectAsterisk
        [JoinedTable (TableName ''my_table'' None)
           [Parser_Join ''LEFT'' (TableName ''my_other_table'' None)
              (BinaryExpression ''eq'' (ColumnReference [''g'']) (ColumnReference [''h'']))]]
        None None None None None ''ALL'') 0
   = Inr (Join (GetTable ''my_table'' None) (GetTable ''my_other_table'' None) ''left''
            (BinaryExpression ''eq'' (ColumnReference [''g'']) (ColumnReference [''h''])), 0)
   \<and> plan_hows
       (Join (GetTable ''my_table'' None) (GetTable ''my_other_table'' None) ''left''
          (BinaryExpression ''eq'' (ColumnReference [''g'']) (ColumnReference [''h''])))
     = map lower [''LEFT'']
   \<and> set ''left'' \<inter> set uppercase_letters = {}"
proof -
  let ?node = "Select SelectAsterisk
        [JoinedTable (TableName ''my_table'' None)
           [Parser_Join ''LEFT'' (TableName ''my_other_table'' None)
              (BinaryExpression ''eq'' (ColumnReference [''g'']) (ColumnReference [''h'']))]]
        None None None None None ''ALL''"
  let ?p = "Join (GetTable ''my_table'' None) (GetTable ''my_other_table'' None) ''left''
            (BinaryExpression ''eq'' (ColumnReference [''g'']) (ColumnReference [''h'']))"
  have lo: "lower ''LEFT'' = ''left''" by (simp add: case_conversion_defs)
  have up: "upper ''ALL'' = ''ALL''" by (simp add: case_conversion_defs)
  have ev: "compile_dag ?node 0 = Inr (?p, 0)"
    by (simp add: compile_dag_def compile_select_steps_def transform_table_def
        filter_pre_transform_def filter_post_transform_def order_def limit_step_def
        drop_duplicates_def lo up)
  from join_kinds_lowercased [OF ev] have
    "plan_hows ?p = map lower (select_hows ?node) \<and>
     (\<forall>how \<in> set (plan_hows ?p). \<forall>c \<in> set how. c \<notin> set uppercase_letters)" .
  then have "plan_hows ?p = map lower [''LEFT''] \<and>
     set ''left'' \<inter> set uppercase_letters = {}"
    by (simp add: lo)
  with ev show ?thesis by blast
qed

end
